theory Spec2Isabelle
  imports Main "HOL-Library.Word"
begin

section \<open>The start-up sequence of ddns-go (main.go)\<close>

text \<open>
  main.go is straight-line orchestration code: it reads the command-line flags, calls
  into the packages util, config, dns and web and into the Go standard library, forks one
  goroutine for the web service and ends in the update timer. The embedding keeps the
  order of those calls. Each routine of main.go becomes a function from the flags and
  from the outcomes of the external calls (the record \<open>world\<close>) to the list of calls it
  makes, in program order, together with the way the routine ends. The two threads of
  control are put together by an interleaving semantics over schedules.
\<close>

subsection \<open>Data\<close>

text \<open>The command-line flags, lines 25 to 49. Go's \<open>int\<close> is kept as its value.\<close>

record flags =
  versionFlag :: bool
  listen :: string
  every :: int
  ipCacheTimes :: int
  configFilePath :: string
  noWebService :: bool
  skipVerify :: bool
  customDNS :: string
  newPassword :: string

text \<open>
  The flag defaults. The default of \<open>-c\<close> is the value of
  \<open>util.GetConfigFilePathDefault()\<close>, computed when the package is initialised; it is a
  parameter here.
\<close>

definition default_flags :: "string \<Rightarrow> flags" where
  "default_flags path =
     \<lparr>versionFlag = False, listen = '':9876'', every = 300, ipCacheTimes = 5,
      configFilePath = path, noWebService = False, skipVerify = False,
      customDNS = [], newPassword = []\<rparr>"

text \<open>
  An \<open>error\<close> value: one produced by a library call (with its text), or the one built at
  line 154 by \<open>errors.New(util.LogStr(..., err))\<close> around a bind error.
\<close>

datatype error = Library_error string | Listen_exception error

text \<open>What main.go reads of a \<open>*net.TCPAddr\<close> (lines 177 to 179).\<close>

record tcpaddr =
  addr_Port :: int
  addr_IsGlobalUnicast :: bool
  addr_String :: string

text \<open>What main.go reads of a \<open>config.Config\<close> (lines 104 and 119).\<close>

record config =
  Lang :: string

text \<open>The three environment variables main.go writes, by the names of their constants.\<close>

datatype envkey = VersionEnv | ConfigFilePathENV | IPCacheTimesENV

text \<open>The messages passed to \<open>util.Log\<close>, by line: 87, 150 and 170.\<close>

datatype message =
  Msg_config_not_found string
| Msg_listen string
| Msg_docker_hint

datatype auth = AuthAssert | Auth

datatype handler =
  StaticFsFunc | FaviconFsFunc | Login | LoginFunc
| Writing | Save | Logs | ClearLog | WebhookTest | Logout

text \<open>\<open>time.Duration\<close> is an \<open>int64\<close> of nanoseconds; its arithmetic wraps.\<close>

type_synonym duration = "64 word"

definition time_Second :: duration where
  "time_Second = 1000000000"

definition time_Minute :: duration where
  "time_Minute = 60 * time_Second"

text \<open>One constructor for each call main.go makes with an effect outside itself.\<close>

datatype event =
  Fmt_Println string
| FixTimezone
| ResolveTCPAddr string
| Log_Fatalf error
| Os_Setenv envkey string
| Filepath_Abs string
| GetConfigCached
| ResetPassword config string
| Util_Log message
| SetInsecureSkipVerify
| SetDNS string
| CompatibleConfig config
| InitLogLang string
| Go_runWebServer
| InitBackupDNS string string
| WaitInternet
| RunTimer duration
| Http_HandleFunc string auth handler
| Net_Listen string
| IsRunInDocker
| Go_OpenExplorer string
| Http_Serve
| Log_Println error
| Time_Sleep duration

text \<open>
  How a routine ends: it returns a value, it never returns (it blocks or loops for ever
  inside an external call), or it ends the whole process with a status (\<open>os.Exit\<close>,
  \<open>log.Fatalf\<close>).
\<close>

datatype 'a result = Returned 'a | Blocked | Exited int

text \<open>
  What a blocking call outside main.go does: it gives a value back or it never comes
  back. It cannot end the process by a path that main.go shows.
\<close>

datatype 'a outcome = Returns 'a | Never_returns

text \<open>
  The outcomes of the external calls, one field for each call site whose result main.go
  looks at. \<open>version\<close> is the package variable set at build time. \<open>config_main\<close> is the
  pair returned by \<open>config.GetConfigCached\<close> in \<open>main\<close> (line 83 or 101, of which a run
  reaches one), \<open>config_web\<close> the one in \<open>autoOpenExplorer\<close> (line 165).
  \<open>compatibleConfig\<close> is what \<open>conf.CompatibleConfig()\<close> leaves in \<open>conf\<close>.
  \<open>waitInternet_returns\<close> and \<open>runTimer_returns\<close> say whether \<open>util.WaitInternet\<close>
  and \<open>dns.RunTimer\<close> ever come back. \<open>net_Listen\<close> gives the bind error, if any;
  \<open>http_Serve\<close> says whether \<open>http.Serve\<close> returns and with what.
\<close>

record world =
  version :: string
  GOOS :: string
  resolve_main :: "string \<Rightarrow> error + tcpaddr"
  filepath_Abs :: "string \<Rightarrow> string"
  config_main :: "config \<times> error option"
  compatibleConfig :: "config \<Rightarrow> config"
  waitInternet_returns :: bool
  runTimer_returns :: bool
  net_Listen :: "string \<Rightarrow> error option"
  config_web :: "config \<times> error option"
  isRunInDocker :: bool
  resolve_web :: "string \<Rightarrow> error + tcpaddr"
  http_Serve :: "error option outcome"

subsection \<open>Formatting\<close>

text \<open>\<open>strconv.Itoa\<close>, and \<open>%d\<close> of \<open>fmt.Sprintf\<close>: decimal, with a minus sign.\<close>

fun digits :: "nat \<Rightarrow> string" where
  "digits n =
     (if n < 10 then [''0123456789'' ! n]
      else digits (n div 10) @ [''0123456789'' ! (n mod 10)])"

definition itoa :: "int \<Rightarrow> string" where
  "itoa i = (if i < 0 then CHR ''-'' # digits (nat (- i)) else digits (nat i))"

subsection \<open>The main thread: \<open>main\<close>, lines 60 to 126\<close>

text \<open>Lines 67 to 69.\<close>

definition fix_timezone :: "world \<Rightarrow> event list" where
  "fix_timezone w = (if GOOS w = ''android'' then [FixTimezone] else [])"

text \<open>Lines 75 to 80: the version and, under its guard, the configuration path.\<close>

definition set_env :: "flags \<Rightarrow> world \<Rightarrow> event list" where
  "set_env f w =
     Os_Setenv VersionEnv (version w) #
     (if configFilePath f \<noteq> []
      then [Filepath_Abs (configFilePath f),
            Os_Setenv ConfigFilePathENV (filepath_Abs w (configFilePath f))]
      else [])"

text \<open>Lines 83 to 88: the body of the reset-password branch.\<close>

definition reset_password :: "flags \<Rightarrow> world \<Rightarrow> event list" where
  "reset_password f w =
     GetConfigCached #
     (case config_main w of
        (conf, None) \<Rightarrow> [ResetPassword conf (newPassword f)]
      | (conf, Some err) \<Rightarrow> [Util_Log (Msg_config_not_found (configFilePath f))])"

text \<open>Lines 92 to 99.\<close>

definition global_switches :: "flags \<Rightarrow> event list" where
  "global_switches f =
     (if skipVerify f then [SetInsecureSkipVerify] else []) @
     (if customDNS f \<noteq> [] then [SetDNS (customDNS f)] else []) @
     [Os_Setenv IPCacheTimesENV (itoa (ipCacheTimes f))]"

text \<open>
  Lines 101 to 104. The error of \<open>GetConfigCached\<close> is discarded (\<open>conf, _ :=\<close>); the
  language is read from \<open>conf\<close> after \<open>CompatibleConfig\<close> has run on it.
\<close>

definition load_config :: "world \<Rightarrow> event list" where
  "load_config w =
     [GetConfigCached, CompatibleConfig (fst (config_main w)),
      InitLogLang (Lang (compatibleConfig w (fst (config_main w))))]"

text \<open>Lines 106 to 116: the \<open>go\<close> statement, under its guard.\<close>

definition fork_web :: "flags \<Rightarrow> event list" where
  "fork_web f = (if \<not> noWebService f then [Go_runWebServer] else [])"

text \<open>
  Lines 119 to 125. \<open>util.WaitInternet\<close> and \<open>dns.RunTimer\<close> return or not, as the world
  says; when \<open>dns.RunTimer\<close> returns, so does \<open>main\<close>.
\<close>

definition update_loop :: "flags \<Rightarrow> world \<Rightarrow> event list \<times> unit result" where
  "update_loop f w =
     (let waiting =
            [InitBackupDNS (customDNS f) (Lang (compatibleConfig w (fst (config_main w)))),
             WaitInternet]
      in if waitInternet_returns w
         then (waiting @ [RunTimer (word_of_int (every f) * time_Second)],
               if runTimer_returns w then Returned () else Blocked)
         else (waiting, Blocked))"

definition main :: "flags \<Rightarrow> world \<Rightarrow> event list \<times> unit result" where
  "main f w =
     (if versionFlag f then ([Fmt_Println (version w)], Returned ())
      else
        case resolve_main w (listen f) of
          Inl err \<Rightarrow>
            (fix_timezone w @ [ResolveTCPAddr (listen f), Log_Fatalf err], Exited 1)
        | Inr _ \<Rightarrow>
            (let boot = fix_timezone w @ [ResolveTCPAddr (listen f)] @ set_env f w
             in if newPassword f \<noteq> []
                then (boot @ reset_password f w, Returned ())
                else (boot @ global_switches f @ load_config w @ fork_web f @
                        fst (update_loop f w),
                      snd (update_loop f w))))"

subsection \<open>The web goroutine: \<open>runWebServer\<close> and \<open>autoOpenExplorer\<close>\<close>

text \<open>Lines 138 to 148.\<close>

definition routes :: "event list" where
  "routes =
     [Http_HandleFunc ''/static/'' AuthAssert StaticFsFunc,
      Http_HandleFunc ''/favicon.ico'' AuthAssert FaviconFsFunc,
      Http_HandleFunc ''/login'' AuthAssert Login,
      Http_HandleFunc ''/loginFunc'' AuthAssert LoginFunc,
      Http_HandleFunc ''/'' Auth Writing,
      Http_HandleFunc ''/save'' Auth Save,
      Http_HandleFunc ''/logs'' Auth Logs,
      Http_HandleFunc ''/clearLog'' Auth ClearLog,
      Http_HandleFunc ''/webhookTest'' Auth WebhookTest,
      Http_HandleFunc ''/logout'' Auth Logout]"

text \<open>Lines 177 to 180.\<close>

definition explorer_url :: "tcpaddr \<Rightarrow> string" where
  "explorer_url addr =
     (if addr_IsGlobalUnicast addr then ''http://'' @ addr_String addr
      else ''http://127.0.0.1:'' @ itoa (addr_Port addr))"

text \<open>
  Lines 164 to 184. The function has no result; \<open>util.OpenExplorer\<close> is started with
  \<open>go\<close>, so the call at line 181 is a fork.
\<close>

definition autoOpenExplorer :: "flags \<Rightarrow> world \<Rightarrow> event list" where
  "autoOpenExplorer f w =
     GetConfigCached #
     (case snd (config_web w) of
        None \<Rightarrow> []
      | Some err \<Rightarrow>
          IsRunInDocker #
          (if isRunInDocker w then [Util_Log Msg_docker_hint]
           else
             ResolveTCPAddr (listen f) #
             (case resolve_web w (listen f) of
                Inl err' \<Rightarrow> []
              | Inr addr \<Rightarrow> [Go_OpenExplorer (explorer_url addr)])))"

text \<open>Lines 136 to 161.\<close>

definition runWebServer :: "flags \<Rightarrow> world \<Rightarrow> event list \<times> error option outcome" where
  "runWebServer f w =
     (let opening = routes @ [Util_Log (Msg_listen (listen f)), Net_Listen (listen f)]
      in case net_Listen w (listen f) of
           Some err \<Rightarrow> (opening, Returns (Some (Listen_exception err)))
         | None \<Rightarrow> (opening @ autoOpenExplorer f w @ [Http_Serve], http_Serve w))"

text \<open>Lines 107 to 115: the body of the goroutine.\<close>

definition web_goroutine :: "flags \<Rightarrow> world \<Rightarrow> event list \<times> unit result" where
  "web_goroutine f w =
     (case runWebServer f w of
        (es, Returns (Some err)) \<Rightarrow> (es @ [Log_Println err, Time_Sleep time_Minute], Exited 1)
      | (es, Returns None) \<Rightarrow> (es, Returned ())
      | (es, Never_returns) \<Rightarrow> (es, Blocked))"

subsection \<open>The process: two threads under a schedule\<close>

text \<open>
  The \<open>go\<close> statement at line 107 starts the second thread. A schedule is the list of
  the threads that take the successive steps. A step of a thread performs its next call.
  A thread with no call left ends: \<open>main\<close> returning ends the process with status 0, an
  exit in either thread ends it with that status, a goroutine returning ends nothing,
  and a blocked thread stays where it is. After the end of the process nothing happens.
  The trace records each call with the thread that made it; \<open>exited\<close> records the thread
  that ended the process and the status.
\<close>

datatype tid = Main_thread | Web_thread

record pstate =
  trace :: "(tid \<times> event) list"
  main_todo :: "event list"
  web_todo :: "event list option"
  exited :: "(tid \<times> int) option"

definition init :: "flags \<Rightarrow> world \<Rightarrow> pstate" where
  "init f w = \<lparr>trace = [], main_todo = fst (main f w), web_todo = None, exited = None\<rparr>"

definition finish :: "tid \<Rightarrow> unit result \<Rightarrow> pstate \<Rightarrow> pstate" where
  "finish t r s =
     (case r of
        Returned u \<Rightarrow> (if t = Main_thread then s\<lparr>exited := Some (t, 0)\<rparr> else s)
      | Blocked \<Rightarrow> s
      | Exited n \<Rightarrow> s\<lparr>exited := Some (t, n)\<rparr>)"

definition step :: "flags \<Rightarrow> world \<Rightarrow> tid \<Rightarrow> pstate \<Rightarrow> pstate" where
  "step f w t s =
     (if exited s \<noteq> None then s
      else
        case t of
          Main_thread \<Rightarrow>
            (case main_todo s of
               e # es \<Rightarrow>
                 s\<lparr>trace := trace s @ [(Main_thread, e)], main_todo := es,
                   web_todo := (if e = Go_runWebServer then Some (fst (web_goroutine f w))
                                else web_todo s)\<rparr>
             | [] \<Rightarrow> finish Main_thread (snd (main f w)) s)
        | Web_thread \<Rightarrow>
            (case web_todo s of
               None \<Rightarrow> s
             | Some [] \<Rightarrow> finish Web_thread (snd (web_goroutine f w)) s
             | Some (e # es) \<Rightarrow>
                 s\<lparr>trace := trace s @ [(Web_thread, e)], web_todo := Some es\<rparr>))"

definition run :: "flags \<Rightarrow> world \<Rightarrow> tid list \<Rightarrow> pstate" where
  "run f w sched = foldl (\<lambda>s t. step f w t s) (init f w) sched"

text \<open>The calls one thread has made so far, in order.\<close>

definition events_of :: "tid \<Rightarrow> pstate \<Rightarrow> event list" where
  "events_of t s = map snd (filter (\<lambda>x. fst x = t) (trace s))"

text \<open>All calls made so far, by either thread.\<close>

definition events :: "pstate \<Rightarrow> event list" where
  "events s = map snd (trace s)"

subsection \<open>Kinds of calls\<close>

text \<open>Binding the listening socket (line 152) and registering a route (lines 138 to 148).\<close>

fun opens_socket :: "event \<Rightarrow> bool" where
  "opens_socket (Net_Listen a) = True"
| "opens_socket e = False"

fun registers_route :: "event \<Rightarrow> bool" where
  "registers_route (Http_HandleFunc p a h) = True"
| "registers_route e = False"

text \<open>The password reset, and the two calls that change the configuration.\<close>

fun resets_password :: "event \<Rightarrow> bool" where
  "resets_password (ResetPassword c p) = True"
| "resets_password e = False"

fun mutates_config :: "event \<Rightarrow> bool" where
  "mutates_config (ResetPassword c p) = True"
| "mutates_config (CompatibleConfig c) = True"
| "mutates_config e = False"

text \<open>Writing an environment variable; the connectivity probe.\<close>

fun writes_env :: "event \<Rightarrow> bool" where
  "writes_env (Os_Setenv k v) = True"
| "writes_env e = False"

fun probes_network :: "event \<Rightarrow> bool" where
  "probes_network WaitInternet = True"
| "probes_network e = False"

text \<open>The three global settings of lines 92 to 99.\<close>

fun applies_global_setting :: "event \<Rightarrow> bool" where
  "applies_global_setting SetInsecureSkipVerify = True"
| "applies_global_setting (SetDNS a) = True"
| "applies_global_setting (Os_Setenv IPCacheTimesENV v) = True"
| "applies_global_setting e = False"

text \<open>Starting the web service (the fork and anything the goroutine does) or the timer.\<close>

fun starts_service :: "event \<Rightarrow> bool" where
  "starts_service Go_runWebServer = True"
| "starts_service (Http_HandleFunc p a h) = True"
| "starts_service (Net_Listen a) = True"
| "starts_service Http_Serve = True"
| "starts_service (RunTimer d) = True"
| "starts_service e = False"

subsection \<open>The invariant of the process\<close>

text \<open>
  In every state a schedule reaches, each thread has made a prefix of its calls, the
  goroutine exists exactly when \<open>main\<close> has passed the \<open>go\<close> statement, and the process
  has ended only where a thread with no call left ends it.
\<close>

definition proc_inv :: "flags \<Rightarrow> world \<Rightarrow> pstate \<Rightarrow> bool" where
  "proc_inv f w s \<longleftrightarrow>
     events_of Main_thread s @ main_todo s = fst (main f w) \<and>
     (case web_todo s of
        None \<Rightarrow> events_of Web_thread s = [] \<and> Go_runWebServer \<notin> set (events_of Main_thread s)
      | Some r \<Rightarrow>
          events_of Web_thread s @ r = fst (web_goroutine f w) \<and>
          Go_runWebServer \<in> set (events_of Main_thread s)) \<and>
     (case exited s of
        None \<Rightarrow> True
      | Some (t, n) \<Rightarrow>
          (t = Main_thread \<and> main_todo s = [] \<and>
             (snd (main f w) = Returned () \<and> n = 0 \<or> snd (main f w) = Exited n)) \<or>
          (t = Web_thread \<and> web_todo s = Some [] \<and> snd (web_goroutine f w) = Exited n))"

subsection \<open>Sample hosts\<close>

text \<open>
  A first start on a Linux host: no configuration file yet, the network up, the port
  free. Only \<open>:9876\<close> resolves as a listen address.
\<close>

definition listen_addr :: tcpaddr where
  "listen_addr = \<lparr>addr_Port = 9876, addr_IsGlobalUnicast = False, addr_String = '':9876''\<rparr>"

definition resolve_9876 :: "string \<Rightarrow> error + tcpaddr" where
  "resolve_9876 a =
     (if a = '':9876'' then Inr listen_addr
      else Inl (Library_error ''missing port in address''))"

definition fresh_host :: world where
  "fresh_host =
     \<lparr>version = ''DEV'', GOOS = ''linux'', resolve_main = resolve_9876,
      filepath_Abs = (\<lambda>p. p),
      config_main = (\<lparr>Lang = []\<rparr>, Some (Library_error ''no such file or directory'')),
      compatibleConfig = (\<lambda>c. c), waitInternet_returns = True, runTimer_returns = False,
      net_Listen = (\<lambda>a. None),
      config_web = (\<lparr>Lang = []\<rparr>, Some (Library_error ''no such file or directory'')),
      isRunInDocker = False, resolve_web = resolve_9876, http_Serve = Never_returns\<rparr>"

text \<open>The same host with a configuration file in place.\<close>

definition configured_host :: world where
  "configured_host =
     fresh_host\<lparr>config_main := (\<lparr>Lang = ''en''\<rparr>, None),
                config_web := (\<lparr>Lang = ''en''\<rparr>, None)\<rparr>"

text \<open>The same again with the port taken by another process.\<close>

definition busy_host :: world where
  "busy_host =
     configured_host\<lparr>net_Listen := (\<lambda>a. Some (Library_error ''address already in use''))\<rparr>"

text \<open>The port taken and the network down: \<open>util.WaitInternet\<close> never returns.\<close>

definition offline_busy_host :: world where
  "offline_busy_host = busy_host\<lparr>waitInternet_returns := False\<rparr>"

text \<open>The port taken, on a host where \<open>dns.RunTimer\<close> comes back.\<close>

definition timer_returns_host :: world where
  "timer_returns_host = busy_host\<lparr>runTimer_returns := True\<rparr>"

definition home_config :: string where
  "home_config = ''/root/.ddns_go_config.yaml''"

section \<open>Properties\<close>

subsection \<open>Schedules and the invariant\<close>

lemma run_Nil: "run f w [] = init f w"
  by (simp add: run_def)

lemma run_snoc: "run f w (sched @ [t]) = step f w t (run f w sched)"
  by (simp add: run_def)

lemma run_append: "run f w (a @ b) = foldl (\<lambda>s t. step f w t s) (run f w a) b"
  by (simp add: run_def)

lemma inv_init: "proc_inv f w (init f w)"
  by (simp add: proc_inv_def init_def events_of_def)

lemma count_fork_main: "count_list (fst (main f w)) Go_runWebServer \<le> 1"
  by (simp add: main_def update_loop_def fork_web_def load_config_def global_switches_def
        reset_password_def set_env_def fix_timezone_def Let_def
        split: sum.splits prod.splits option.splits)

lemma fork_once:
  assumes "xs @ Go_runWebServer # ys = fst (main f w)"
  shows "Go_runWebServer \<notin> set xs"
proof -
  have "count_list (xs @ Go_runWebServer # ys) Go_runWebServer \<le> 1"
    using count_fork_main [of f w] assms by simp
  then have "count_list xs Go_runWebServer = 0" by simp
  then show ?thesis by (simp add: count_list_0_iff)
qed

lemma step_exited: "exited s \<noteq> None \<Longrightarrow> step f w t s = s"
  by (simp add: step_def)

lemma step_main_call:
  assumes "exited s = None" and "main_todo s = e # es"
  shows "events_of Main_thread (step f w Main_thread s) = events_of Main_thread s @ [e]"
    and "events_of Web_thread (step f w Main_thread s) = events_of Web_thread s"
    and "main_todo (step f w Main_thread s) = es"
    and "web_todo (step f w Main_thread s) =
           (if e = Go_runWebServer then Some (fst (web_goroutine f w)) else web_todo s)"
    and "exited (step f w Main_thread s) = None"
  using assms by (simp_all add: step_def events_of_def)

lemma step_main_end:
  assumes "exited s = None" and "main_todo s = []"
  shows "events_of t (step f w Main_thread s) = events_of t s"
    and "main_todo (step f w Main_thread s) = []"
    and "web_todo (step f w Main_thread s) = web_todo s"
    and "exited (step f w Main_thread s) =
           (case snd (main f w) of
              Returned u \<Rightarrow> Some (Main_thread, 0)
            | Blocked \<Rightarrow> None
            | Exited n \<Rightarrow> Some (Main_thread, n))"
  using assms by (simp_all add: step_def finish_def events_of_def split: result.splits)

lemma step_web_idle:
  assumes "exited s = None" and "web_todo s = None"
  shows "step f w Web_thread s = s"
  using assms by (simp add: step_def)

lemma step_web_call:
  assumes "exited s = None" and "web_todo s = Some (e # es)"
  shows "events_of Web_thread (step f w Web_thread s) = events_of Web_thread s @ [e]"
    and "events_of Main_thread (step f w Web_thread s) = events_of Main_thread s"
    and "main_todo (step f w Web_thread s) = main_todo s"
    and "web_todo (step f w Web_thread s) = Some es"
    and "exited (step f w Web_thread s) = None"
  using assms by (simp_all add: step_def events_of_def)

lemma step_web_end:
  assumes "exited s = None" and "web_todo s = Some []"
  shows "events_of t (step f w Web_thread s) = events_of t s"
    and "main_todo (step f w Web_thread s) = main_todo s"
    and "web_todo (step f w Web_thread s) = Some []"
    and "exited (step f w Web_thread s) =
           (case snd (web_goroutine f w) of
              Returned u \<Rightarrow> None
            | Blocked \<Rightarrow> None
            | Exited n \<Rightarrow> Some (Web_thread, n))"
  using assms by (simp_all add: step_def finish_def events_of_def split: result.splits)

lemma inv_step_main_call:
  assumes "proc_inv f w s" and "exited s = None" and "main_todo s = e # es"
  shows "proc_inv f w (step f w Main_thread s)"
proof -
  note st = step_main_call [OF assms(2,3)]
  have all: "events_of Main_thread s @ e # es = fst (main f w)"
    using assms by (simp add: proc_inv_def)
  show ?thesis
  proof (cases "e = Go_runWebServer")
    case True
    then have "Go_runWebServer \<notin> set (events_of Main_thread s)"
      using all fork_once by blast
    then have "web_todo s = None" and "events_of Web_thread s = []"
      using assms(1) by (auto simp: proc_inv_def split: option.splits)
    then show ?thesis
      using all True by (simp add: proc_inv_def st)
  next
    case False
    then show ?thesis
      using assms(1) all by (auto simp: proc_inv_def st split: option.splits)
  qed
qed

lemma inv_step: "proc_inv f w s \<Longrightarrow> proc_inv f w (step f w t s)"
proof (cases "exited s")
  case (Some a)
  assume "proc_inv f w s"
  with Some show ?thesis by (simp add: step_exited)
next
  case None
  assume i: "proc_inv f w s"
  show ?thesis
  proof (cases t)
    case Main_thread
    show ?thesis
    proof (cases "main_todo s")
      case Nil
      note st = step_main_end [OF None Nil]
      from i Nil show ?thesis
        unfolding Main_thread
        by (cases "snd (main f w)") (auto simp: proc_inv_def st split: option.splits)
    next
      case (Cons e es)
      with i None Main_thread show ?thesis
        by (simp add: inv_step_main_call)
    qed
  next
    case Web_thread
    show ?thesis
    proof (cases "web_todo s")
      case None': None
      with i None show ?thesis
        unfolding Web_thread by (simp add: step_web_idle)
    next
      case (Some r)
      show ?thesis
      proof (cases r)
        case Nil
        note st = step_web_end [OF None Some [unfolded Nil]]
        from i Some Nil show ?thesis
          unfolding Web_thread
          by (cases "snd (web_goroutine f w)") (auto simp: proc_inv_def st split: option.splits)
      next
        case (Cons e es)
        note st = step_web_call [OF None Some [unfolded Cons]]
        from i Some Cons show ?thesis
          unfolding Web_thread by (auto simp: proc_inv_def st split: option.splits)
      qed
    qed
  qed
qed

lemma inv_run: "proc_inv f w (run f w sched)"
  by (induction sched rule: rev_induct) (simp_all add: run_Nil run_snoc inv_init inv_step)

lemma step_keeps_exit: "exited (step f w t s) = None \<Longrightarrow> exited s = None"
  by (cases "exited s") (simp_all add: step_exited)

lemma main_alone:
  "exited (run f w sched) = None \<Longrightarrow>
     events_of Main_thread (run f w sched) =
       events_of Main_thread (run f w (filter (\<lambda>t. t = Main_thread) sched)) \<and>
     main_todo (run f w sched) = main_todo (run f w (filter (\<lambda>t. t = Main_thread) sched)) \<and>
     exited (run f w (filter (\<lambda>t. t = Main_thread) sched)) = None"
proof (induction sched rule: rev_induct)
  case Nil
  then show ?case by simp
next
  case (snoc t sched)
  let ?s = "run f w sched"
  let ?m = "run f w (filter (\<lambda>t. t = Main_thread) sched)"
  from snoc.prems have live: "exited ?s = None"
    by (simp add: run_snoc step_keeps_exit)
  with snoc.IH have ih: "events_of Main_thread ?s = events_of Main_thread ?m"
    "main_todo ?s = main_todo ?m" "exited ?m = None"
    by simp_all
  show ?case
  proof (cases t)
    case Main_thread
    show ?thesis
    proof (cases "main_todo ?s")
      case Nil
      with ih have nil': "main_todo ?m = []" by simp
      from snoc.prems show ?thesis
        unfolding Main_thread
        by (simp add: run_snoc step_main_end [OF live Nil] step_main_end [OF ih(3) nil'] ih)
    next
      case (Cons e es)
      with ih have cons': "main_todo ?m = e # es" by simp
      show ?thesis
        unfolding Main_thread
        by (simp add: run_snoc step_main_call [OF live Cons] step_main_call [OF ih(3) cons'] ih)
    qed
  next
    case Web_thread
    show ?thesis
    proof (cases "web_todo ?s")
      case None
      then show ?thesis
        unfolding Web_thread by (simp add: run_snoc step_web_idle [OF live] ih)
    next
      case (Some r)
      then show ?thesis
        unfolding Web_thread
        by (cases r)
           (simp_all add: run_snoc step_web_end [OF live] step_web_call [OF live] ih)
    qed
  qed
qed

text \<open>Every call in the trace is a call of one of the two threads.\<close>

lemma set_events: "set (events s) = set (events_of Main_thread s) \<union> set (events_of Web_thread s)"
proof -
  have "set (trace s) =
      {x \<in> set (trace s). fst x = Main_thread} \<union> {x \<in> set (trace s). fst x = Web_thread}"
    using tid.exhaust by auto
  then have "snd ` set (trace s) =
      snd ` {x \<in> set (trace s). fst x = Main_thread} \<union>
      snd ` {x \<in> set (trace s). fst x = Web_thread}"
    by (metis image_Un)
  then show ?thesis
    by (simp add: events_def events_of_def)
qed

lemma events_main_only:
  assumes "events_of Web_thread s = []"
  shows "events s = events_of Main_thread s"
proof -
  have "filter (\<lambda>x. fst x = Web_thread) (trace s) = []"
    using assms by (simp add: events_of_def)
  then have "\<forall>x\<in>set (trace s). fst x = Main_thread"
    by (metis (mono_tags, lifting) filter_empty_conv tid.exhaust)
  then have "filter (\<lambda>x. fst x = Main_thread) (trace s) = trace s"
    by simp
  then show ?thesis by (simp add: events_def events_of_def)
qed

lemma main_events_subset: "set (events_of Main_thread (run f w sched)) \<subseteq> set (fst (main f w))"
proof -
  have "events_of Main_thread (run f w sched) @ main_todo (run f w sched) = fst (main f w)"
    using inv_run [of f w sched] by (simp add: proc_inv_def)
  then show ?thesis by (metis set_append Un_upper1)
qed

lemma web_events_subset:
  "set (events_of Web_thread (run f w sched)) \<subseteq> set (fst (web_goroutine f w))"
proof (cases "web_todo (run f w sched)")
  case None
  then show ?thesis
    using inv_run [of f w sched] by (simp add: proc_inv_def)
next
  case (Some r)
  then have "events_of Web_thread (run f w sched) @ r = fst (web_goroutine f w)"
    using inv_run [of f w sched] by (simp add: proc_inv_def)
  then show ?thesis by (metis set_append Un_upper1)
qed

text \<open>Where \<open>main\<close> has no \<open>go\<close> statement on its path, the goroutine never exists.\<close>

lemma no_fork:
  assumes "Go_runWebServer \<notin> set (fst (main f w))"
  shows "web_todo (run f w sched) = None"
    and "events_of Web_thread (run f w sched) = []"
    and "set (events (run f w sched)) \<subseteq> set (fst (main f w))"
proof -
  have nf: "Go_runWebServer \<notin> set (events_of Main_thread (run f w sched))"
    using assms main_events_subset [of f w sched] by blast
  then show a: "web_todo (run f w sched) = None"
    using inv_run [of f w sched] by (auto simp: proc_inv_def split: option.splits)
  then show b: "events_of Web_thread (run f w sched) = []"
    using inv_run [of f w sched] by (simp add: proc_inv_def)
  then show "set (events (run f w sched)) \<subseteq> set (fst (main f w))"
    using main_events_subset [of f w sched] by (simp add: set_events)
qed

lemma exit_by_main:
  assumes "Go_runWebServer \<notin> set (fst (main f w))"
  shows "exited (run f w sched) = None \<or>
         snd (main f w) = Returned () \<and> exited (run f w sched) = Some (Main_thread, 0) \<or>
         (\<exists>n. snd (main f w) = Exited n \<and> exited (run f w sched) = Some (Main_thread, n))"
  using inv_run [of f w sched] no_fork(1) [OF assms, of sched]
  by (auto simp: proc_inv_def split: option.splits)

lemma main_events_prefix:
  assumes "Go_runWebServer \<notin> set (fst (main f w))"
  shows "events (run f w sched) @ main_todo (run f w sched) = fst (main f w)"
  using inv_run [of f w sched] no_fork(2) [OF assms, of sched]
  by (simp add: proc_inv_def events_main_only)

text \<open>When only \<open>main\<close> is scheduled, it makes its calls one by one and then ends.\<close>

lemma run_main_only:
  "n \<le> length (fst (main f w)) \<Longrightarrow>
     exited (run f w (replicate n Main_thread)) = None \<and>
     main_todo (run f w (replicate n Main_thread)) = drop n (fst (main f w)) \<and>
     events_of Main_thread (run f w (replicate n Main_thread)) = take n (fst (main f w))"
proof (induction n)
  case 0
  then show ?case by (simp add: run_Nil init_def events_of_def)
next
  case (Suc n)
  let ?s = "run f w (replicate n Main_thread)"
  from Suc have ih: "exited ?s = None" "main_todo ?s = drop n (fst (main f w))"
    "events_of Main_thread ?s = take n (fst (main f w))"
    by simp_all
  from Suc.prems have "drop n (fst (main f w)) = fst (main f w) ! n # drop (Suc n) (fst (main f w))"
    by (simp add: Cons_nth_drop_Suc)
  with ih have todo: "main_todo ?s = fst (main f w) ! n # drop (Suc n) (fst (main f w))"
    by simp
  have "replicate (Suc n) Main_thread = replicate n Main_thread @ [Main_thread]"
    by (simp add: replicate_append_same)
  then have "run f w (replicate (Suc n) Main_thread) = step f w Main_thread ?s"
    by (simp only: run_snoc)
  with Suc.prems ih show ?case
    by (simp add: step_main_call [OF ih(1) todo] take_Suc_conv_app_nth)
qed

lemma main_only_all_calls:
  "events_of Main_thread (run f w (replicate (length (fst (main f w))) Main_thread)) =
     fst (main f w)"
  using run_main_only [of "length (fst (main f w))" f w] by simp

lemma run_main_complete:
  assumes "Go_runWebServer \<notin> set (fst (main f w))"
  shows "events (run f w (replicate (length (fst (main f w))) Main_thread)) = fst (main f w)"
  using run_main_only [of "length (fst (main f w))" f w] no_fork(2) [OF assms]
  by (simp add: events_main_only)

text \<open>
  While the process is alive, the main thread has made one call for each step it was
  given, whatever the goroutine has done in between.
\<close>

lemma main_progress:
  "exited (run f w sched) = None \<Longrightarrow>
     events_of Main_thread (run f w sched) =
       take (length (filter (\<lambda>t. t = Main_thread) sched)) (fst (main f w)) \<and>
     main_todo (run f w sched) =
       drop (length (filter (\<lambda>t. t = Main_thread) sched)) (fst (main f w))"
proof (induction sched rule: rev_induct)
  case Nil
  then show ?case by (simp add: run_Nil init_def events_of_def)
next
  case (snoc t sched)
  let ?s = "run f w sched"
  let ?c = "length (filter (\<lambda>t. t = Main_thread) sched)"
  from snoc.prems have live: "exited ?s = None"
    by (simp add: run_snoc step_keeps_exit)
  with snoc.IH have ih: "events_of Main_thread ?s = take ?c (fst (main f w))"
    "main_todo ?s = drop ?c (fst (main f w))"
    by simp_all
  show ?case
  proof (cases t)
    case Main_thread
    show ?thesis
    proof (cases "main_todo ?s")
      case Nil
      with ih(2) have "length (fst (main f w)) \<le> ?c" by simp
      then show ?thesis
        unfolding Main_thread
        by (simp add: run_snoc step_main_end [OF live Nil] ih)
    next
      case (Cons e es)
      with ih(2) have less: "?c < length (fst (main f w))"
        by (metis drop_eq_Nil2 list.distinct(1) not_le_imp_less)
      then have "drop ?c (fst (main f w)) =
          fst (main f w) ! ?c # drop (Suc ?c) (fst (main f w))"
        by (simp add: Cons_nth_drop_Suc)
      with Cons ih(2) have "e = fst (main f w) ! ?c" and "es = drop (Suc ?c) (fst (main f w))"
        by simp_all
      with less show ?thesis
        unfolding Main_thread
        by (simp add: run_snoc step_main_call [OF live Cons] ih take_Suc_conv_app_nth)
    qed
  next
    case Web_thread
    show ?thesis
    proof (cases "web_todo ?s")
      case None
      then show ?thesis
        unfolding Web_thread by (simp add: run_snoc step_web_idle [OF live] ih)
    next
      case (Some r)
      then show ?thesis
        unfolding Web_thread
        by (cases r)
           (simp_all add: run_snoc step_web_end [OF live] step_web_call [OF live] ih)
    qed
  qed
qed

lemma main_ends:
  "exited (run f w (replicate (Suc (length (fst (main f w)))) Main_thread)) =
     (case snd (main f w) of
        Returned u \<Rightarrow> Some (Main_thread, 0)
      | Blocked \<Rightarrow> None
      | Exited n \<Rightarrow> Some (Main_thread, n))"
proof -
  let ?n = "length (fst (main f w))"
  let ?s = "run f w (replicate ?n Main_thread)"
  have live: "exited ?s = None" and todo: "main_todo ?s = []"
    using run_main_only [of ?n f w] by simp_all
  have "replicate (Suc ?n) Main_thread = replicate ?n Main_thread @ [Main_thread]"
    by (simp add: replicate_append_same)
  then have "run f w (replicate (Suc ?n) Main_thread) = step f w Main_thread ?s"
    by (simp only: run_snoc)
  then show ?thesis
    by (simp add: step_main_end [OF live todo])
qed

text \<open>From a live state, the goroutine alone makes its remaining calls one by one.\<close>

lemma web_steps:
  "exited s = None \<Longrightarrow> web_todo s = Some r \<Longrightarrow> k \<le> length r \<Longrightarrow>
     exited (foldl (\<lambda>s t. step f w t s) s (replicate k Web_thread)) = None \<and>
     web_todo (foldl (\<lambda>s t. step f w t s) s (replicate k Web_thread)) = Some (drop k r) \<and>
     events_of Web_thread (foldl (\<lambda>s t. step f w t s) s (replicate k Web_thread)) =
       events_of Web_thread s @ take k r"
proof (induction k)
  case 0
  then show ?case by simp
next
  case (Suc k)
  let ?s = "foldl (\<lambda>s t. step f w t s) s (replicate k Web_thread)"
  from Suc have ih: "exited ?s = None" "web_todo ?s = Some (drop k r)"
    "events_of Web_thread ?s = events_of Web_thread s @ take k r"
    by simp_all
  from Suc.prems have "drop k r = r ! k # drop (Suc k) r"
    by (simp add: Cons_nth_drop_Suc)
  with ih have todo: "web_todo ?s = Some (r ! k # drop (Suc k) r)"
    by simp
  have "replicate (Suc k) Web_thread = replicate k Web_thread @ [Web_thread]"
    by (simp add: replicate_append_same)
  then have "foldl (\<lambda>s t. step f w t s) s (replicate (Suc k) Web_thread) = step f w Web_thread ?s"
    by (simp only: foldl_append foldl.simps)
  with Suc.prems ih show ?case
    by (simp add: step_web_call [OF ih(1) todo] take_Suc_conv_app_nth)
qed

lemma web_ends:
  assumes "exited s = None" and "web_todo s = Some r"
  shows "exited (foldl (\<lambda>s t. step f w t s) s (replicate (Suc (length r)) Web_thread)) =
     (case snd (web_goroutine f w) of
        Returned u \<Rightarrow> None
      | Blocked \<Rightarrow> None
      | Exited n \<Rightarrow> Some (Web_thread, n))"
proof -
  let ?s = "foldl (\<lambda>s t. step f w t s) s (replicate (length r) Web_thread)"
  have live: "exited ?s = None" and todo: "web_todo ?s = Some []"
    using web_steps [OF assms, of "length r" f w] by simp_all
  have "replicate (Suc (length r)) Web_thread = replicate (length r) Web_thread @ [Web_thread]"
    by (simp add: replicate_append_same)
  then have "foldl (\<lambda>s t. step f w t s) s (replicate (Suc (length r)) Web_thread) =
      step f w Web_thread ?s"
    by (simp only: foldl_append foldl.simps)
  then show ?thesis
    by (simp add: step_web_end [OF live todo])
qed

subsection \<open>The paths of \<open>main\<close>\<close>

lemma main_version: "versionFlag f \<Longrightarrow> main f w = ([Fmt_Println (version w)], Returned ())"
  by (simp add: main_def)

lemma main_fatal:
  "\<not> versionFlag f \<Longrightarrow> resolve_main w (listen f) = Inl err \<Longrightarrow>
     main f w = (fix_timezone w @ [ResolveTCPAddr (listen f), Log_Fatalf err], Exited 1)"
  by (simp add: main_def)

lemma main_reset:
  "\<not> versionFlag f \<Longrightarrow> resolve_main w (listen f) = Inr a \<Longrightarrow> newPassword f \<noteq> [] \<Longrightarrow>
     main f w =
       (fix_timezone w @ [ResolveTCPAddr (listen f)] @ set_env f w @ reset_password f w,
        Returned ())"
  by (simp add: main_def)

lemma main_service:
  "\<not> versionFlag f \<Longrightarrow> resolve_main w (listen f) = Inr a \<Longrightarrow> newPassword f = [] \<Longrightarrow>
     main f w =
       (fix_timezone w @ [ResolveTCPAddr (listen f)] @ set_env f w @ global_switches f @
          load_config w @ fork_web f @ fst (update_loop f w),
        snd (update_loop f w))"
  by (simp add: main_def)

lemma main_cases:
  obtains (version) "versionFlag f"
  | (fatal) err where "\<not> versionFlag f" and "resolve_main w (listen f) = Inl err"
  | (reset) a where "\<not> versionFlag f" and "resolve_main w (listen f) = Inr a"
      and "newPassword f \<noteq> []"
  | (service) a where "\<not> versionFlag f" and "resolve_main w (listen f) = Inr a"
      and "newPassword f = []"
  by (cases "resolve_main w (listen f)") blast+

lemmas path_defs = fix_timezone_def set_env_def reset_password_def global_switches_def
  load_config_def fork_web_def update_loop_def Let_def

lemma update_loop_calls:
  "fst (update_loop f w) =
     InitBackupDNS (customDNS f) (Lang (compatibleConfig w (fst (config_main w)))) #
     WaitInternet #
     (if waitInternet_returns w then [RunTimer (word_of_int (every f) * time_Second)] else [])"
  by (simp add: update_loop_def Let_def)

lemma update_loop_end:
  "snd (update_loop f w) =
     (if waitInternet_returns w \<and> runTimer_returns w then Returned () else Blocked)"
  by (simp add: update_loop_def Let_def)

lemma main_forks_iff:
  "Go_runWebServer \<in> set (fst (main f w)) \<longleftrightarrow>
     \<not> versionFlag f \<and> \<not> isl (resolve_main w (listen f)) \<and> newPassword f = [] \<and>
     \<not> noWebService f"
  by (rule main_cases [where f = f and w = w])
     (auto simp: main_version main_fatal main_reset main_service path_defs
           split: prod.splits option.splits)

lemma main_no_socket: "e \<in> set (fst (main f w)) \<Longrightarrow> \<not> opens_socket e \<and> \<not> registers_route e"
  by (rule main_cases [where f = f and w = w])
     (auto simp: main_version main_fatal main_reset main_service path_defs
           split: prod.splits option.splits if_splits)

lemma reset_path_quiet:
  assumes "\<not> versionFlag f" and "resolve_main w (listen f) = Inr a" and "newPassword f \<noteq> []"
    and "e \<in> set (fst (main f w))"
  shows "\<not> starts_service e \<and> \<not> probes_network e \<and> \<not> applies_global_setting e"
  using assms
  by (auto simp: main_reset path_defs split: prod.splits option.splits if_splits)

lemma no_path_written:
  "configFilePath f = [] \<Longrightarrow> Os_Setenv ConfigFilePathENV v \<notin> set (fst (main f w))"
  by (rule main_cases [where f = f and w = w])
     (auto simp: main_version main_fatal main_reset main_service path_defs
           split: prod.splits option.splits if_splits)

lemma first_occurrence:
  "x \<notin> set xs \<Longrightarrow> x \<notin> set xs' \<Longrightarrow> xs @ x # ys = xs' @ x # ys' \<Longrightarrow> xs = xs' \<and> ys = ys'"
proof (induction xs arbitrary: xs')
  case Nil
  then show ?case by (cases xs') auto
next
  case (Cons a xs)
  then show ?case by (cases xs') auto
qed

lemma fork_split:
  assumes "xs @ ys = A @ Go_runWebServer # B" and "Go_runWebServer \<in> set xs"
    and "Go_runWebServer \<notin> set A"
  shows "\<exists>zs. xs = A @ Go_runWebServer # zs \<and> zs @ ys = B"
proof -
  obtain x1 x2 where xs: "xs = x1 @ Go_runWebServer # x2" and first: "Go_runWebServer \<notin> set x1"
    using assms(2) by (meson split_list_first)
  have "x1 @ Go_runWebServer # (x2 @ ys) = A @ Go_runWebServer # B"
    using assms(1) xs by simp
  with first assms(3) have "x1 = A \<and> x2 @ ys = B"
    by (rule first_occurrence)
  with xs show ?thesis by simp
qed

text \<open>The calls of \<open>main\<close> before the \<open>go\<close> statement and up to the timer.\<close>

lemma before_fork_calls:
  "Os_Setenv VersionEnv (version w) \<in>
     set (fix_timezone w @ [ResolveTCPAddr (listen f)] @ set_env f w @ global_switches f @
          load_config w)"
  "configFilePath f \<noteq> [] \<Longrightarrow>
     Os_Setenv ConfigFilePathENV (filepath_Abs w (configFilePath f)) \<in>
     set (fix_timezone w @ [ResolveTCPAddr (listen f)] @ set_env f w @ global_switches f @
          load_config w)"
  "Os_Setenv IPCacheTimesENV (itoa (ipCacheTimes f)) \<in>
     set (fix_timezone w @ [ResolveTCPAddr (listen f)] @ set_env f w @ global_switches f @
          load_config w)"
  "CompatibleConfig (fst (config_main w)) \<in>
     set (fix_timezone w @ [ResolveTCPAddr (listen f)] @ set_env f w @ global_switches f @
          load_config w)"
  "Go_runWebServer \<notin>
     set (fix_timezone w @ [ResolveTCPAddr (listen f)] @ set_env f w @ global_switches f @
          load_config w)"
  by (simp_all add: path_defs)

lemma after_fork_calls:
  "e \<in> set (fst (update_loop f w)) \<Longrightarrow> \<not> writes_env e \<and> \<not> mutates_config e"
  by (auto simp: update_loop_calls split: if_splits)

lemma timer_split:
  assumes "xs @ RunTimer d # ys = P @ [y]" and "\<forall>d. RunTimer d \<notin> set P"
  shows "xs = P \<and> ys = []"
proof (cases ys rule: rev_cases)
  case Nil
  with assms(1) show ?thesis by simp
next
  case (snoc ys' l)
  with assms(1) have "P = xs @ RunTimer d # ys'" by simp
  then have "RunTimer d \<in> set P" by simp
  with assms(2) show ?thesis by blast
qed

lemma timer_last:
  assumes "RunTimer d \<in> set (fst (main f w))"
  shows "waitInternet_returns w \<and>
         (\<exists>P y. fst (main f w) = P @ [y] \<and> (\<forall>d. RunTimer d \<notin> set P) \<and> WaitInternet \<in> set P)"
proof (rule main_cases [where f = f and w = w])
  assume "versionFlag f"
  with assms show ?thesis by (simp add: main_version)
next
  fix err assume "\<not> versionFlag f" and "resolve_main w (listen f) = Inl err"
  with assms show ?thesis by (auto simp: main_fatal fix_timezone_def split: if_splits)
next
  fix a assume "\<not> versionFlag f" and "resolve_main w (listen f) = Inr a"
    and "newPassword f \<noteq> []"
  with assms show ?thesis
    by (auto simp: main_reset path_defs split: prod.splits option.splits if_splits)
next
  fix a assume s: "\<not> versionFlag f" "resolve_main w (listen f) = Inr a" "newPassword f = []"
  let ?P = "fix_timezone w @ [ResolveTCPAddr (listen f)] @ set_env f w @ global_switches f @
      load_config w @ fork_web f @
      [InitBackupDNS (customDNS f) (Lang (compatibleConfig w (fst (config_main w)))),
       WaitInternet]"
  have ret: "waitInternet_returns w"
    using assms s by (auto simp: main_service update_loop_calls path_defs split: if_splits)
  then have "fst (main f w) = ?P @ [RunTimer (word_of_int (every f) * time_Second)]"
    using s by (simp add: main_service update_loop_calls)
  moreover have "\<forall>d. RunTimer d \<notin> set ?P"
    by (auto simp: path_defs split: if_splits)
  moreover have "WaitInternet \<in> set ?P" by simp
  ultimately show ?thesis using ret by blast
qed

subsection \<open>The calls of the web goroutine\<close>

lemma server_no_timer: "RunTimer d \<notin> set (fst (runWebServer f w))"
  by (auto simp: runWebServer_def autoOpenExplorer_def routes_def Let_def
        split: option.splits sum.splits if_splits)

lemma web_goroutine_calls:
  "fst (web_goroutine f w) =
     fst (runWebServer f w) @
     (case snd (runWebServer f w) of
        Returns (Some err) \<Rightarrow> [Log_Println err, Time_Sleep time_Minute]
      | _ \<Rightarrow> [])"
  by (cases "runWebServer f w")
     (simp add: web_goroutine_def split: outcome.splits option.splits)

lemma web_no_timer: "RunTimer d \<notin> set (fst (web_goroutine f w))"
  using server_no_timer [of d f w]
  by (auto simp: web_goroutine_calls split: outcome.splits option.splits)

lemma server_failure:
  assumes "net_Listen w (listen f) = Some e \<and> err = Listen_exception e \<or>
           net_Listen w (listen f) = None \<and> http_Serve w = Returns (Some err)"
  shows "snd (runWebServer f w) = Returns (Some err)"
  using assms by (auto simp: runWebServer_def Let_def)

lemma goroutine_failure:
  assumes "snd (runWebServer f w) = Returns (Some err)"
  shows "web_goroutine f w =
           (fst (runWebServer f w) @ [Log_Println err, Time_Sleep time_Minute], Exited 1)"
  using assms by (cases "runWebServer f w") (simp add: web_goroutine_def)

section \<open>The claims\<close>

text \<open>
  C1, as amended. When the listen address does not resolve and \<open>-v\<close> is not given, the
  process stops at the address check: \<open>main\<close> calls \<open>util.FixTimezone\<close> (on Android
  only), then \<open>net.ResolveTCPAddr\<close> on the address, then \<open>log.Fatalf\<close>, and ends the
  process with status 1. Under every schedule the trace holds no call but these:
  \<open>net.Listen\<close> is not called, the cached configuration is not loaded, no environment
  variable is written, \<open>util.WaitInternet\<close> is not called, and the web goroutine is never
  started. What \<open>net.ResolveTCPAddr\<close> itself does to resolve the address (for a host
  name, a lookup on the network) belongs to the check and is not excluded. When \<open>-v\<close> is
  given, the process prints the version and ends with status 0 without checking the
  address, and the trace holds no call but that print.
\<close>

theorem bad_listen_address:
  assumes "resolve_main w (listen f) = Inl err"
  shows "main f w =
           (if versionFlag f then ([Fmt_Println (version w)], Returned ())
            else (fix_timezone w @ [ResolveTCPAddr (listen f), Log_Fatalf err], Exited 1)) \<and>
         (\<forall>e\<in>set (events (run f w sched)).
            if versionFlag f then e = Fmt_Println (version w)
            else e = FixTimezone \<and> GOOS w = ''android'' \<or>
                 e = ResolveTCPAddr (listen f) \<or> e = Log_Fatalf err) \<and>
         (\<forall>a. Net_Listen a \<notin> set (events (run f w sched))) \<and>
         GetConfigCached \<notin> set (events (run f w sched)) \<and>
         (\<forall>k v. Os_Setenv k v \<notin> set (events (run f w sched))) \<and>
         WaitInternet \<notin> set (events (run f w sched)) \<and>
         web_todo (run f w sched) = None \<and>
         exited (run f w (replicate (Suc (length (fst (main f w)))) Main_thread)) =
           Some (Main_thread, if versionFlag f then 0 else 1)"
proof -
  let ?only = "\<lambda>e. if versionFlag f then e = Fmt_Println (version w)
            else e = FixTimezone \<and> GOOS w = ''android'' \<or>
                 e = ResolveTCPAddr (listen f) \<or> e = Log_Fatalf err"
  have m: "main f w =
           (if versionFlag f then ([Fmt_Println (version w)], Returned ())
            else (fix_timezone w @ [ResolveTCPAddr (listen f), Log_Fatalf err], Exited 1))"
    using assms by (simp add: main_version main_fatal)
  have nf: "Go_runWebServer \<notin> set (fst (main f w))"
    using assms by (simp add: main_forks_iff)
  have "\<forall>e\<in>set (fst (main f w)). ?only e"
    by (auto simp: m fix_timezone_def split: if_splits)
  then have a: "\<forall>e\<in>set (events (run f w sched)). ?only e"
    using no_fork(3) [OF nf, of sched] by blast
  have l: "\<forall>a. Net_Listen a \<notin> set (events (run f w sched))"
    using a by (auto split: if_splits)
  have c: "GetConfigCached \<notin> set (events (run f w sched))"
    using a by (auto split: if_splits)
  have v: "\<forall>k v. Os_Setenv k v \<notin> set (events (run f w sched))"
    using a by (auto split: if_splits)
  have p: "WaitInternet \<notin> set (events (run f w sched))"
    using a by (auto split: if_splits)
  have x: "exited (run f w (replicate (Suc (length (fst (main f w)))) Main_thread)) =
           Some (Main_thread, if versionFlag f then 0 else 1)"
  proof -
    have "snd (main f w) = (if versionFlag f then Returned () else Exited 1)"
      by (simp add: m)
    then show ?thesis unfolding main_ends by simp
  qed
  from m a l c v p x no_fork(1) [OF nf, of sched] show ?thesis by blast
qed

theorem bad_listen_address_witness:
  "resolve_main fresh_host (listen ((default_flags home_config)\<lparr>listen := ''localhost''\<rparr>)) =
     Inl (Library_error ''missing port in address'') \<and>
   main ((default_flags home_config)\<lparr>listen := ''localhost''\<rparr>) fresh_host =
     ([ResolveTCPAddr ''localhost'', Log_Fatalf (Library_error ''missing port in address'')],
      Exited 1)"
  using bad_listen_address [of fresh_host "(default_flags home_config)\<lparr>listen := ''localhost''\<rparr>"
      "Library_error ''missing port in address''" "[]"]
  by (simp add: default_flags_def fresh_host_def resolve_9876_def fix_timezone_def)

text \<open>
  C1 as stated fails with \<open>-v -l localhost\<close>: the address does not resolve, and the
  process prints the version and returns; it never reaches the address check.
\<close>

theorem bad_listen_address_counterexample:
  "resolve_main fresh_host
     (listen ((default_flags home_config)\<lparr>versionFlag := True, listen := ''localhost''\<rparr>)) =
     Inl (Library_error ''missing port in address'') \<and>
   main ((default_flags home_config)\<lparr>versionFlag := True, listen := ''localhost''\<rparr>) fresh_host =
     ([Fmt_Println ''DEV''], Returned ())"
  by (simp add: default_flags_def fresh_host_def resolve_9876_def main_def)

text \<open>
  C2, as amended. Outside the version query and the reset-password branch, and with a
  listen address that resolves, a failure to load the cached configuration does not end
  the run: \<open>main\<close> discards the error, so it makes the same calls and ends the same way
  whatever the error component of the result is. It goes on to the migration
  (\<open>CompatibleConfig\<close>), to the fork of the web goroutine unless \<open>-noweb\<close> is given and,
  once \<open>util.WaitInternet\<close> has returned, to the timer; it never exits with a status. A
  schedule that lets the main thread run makes all those calls.
\<close>

theorem load_failure_ignored:
  assumes "\<not> versionFlag f" and "resolve_main w (listen f) = Inr a" and "newPassword f = []"
  shows "main f (w\<lparr>config_main := (fst (config_main w), err)\<rparr>) = main f w \<and>
         main f w =
           (fix_timezone w @ [ResolveTCPAddr (listen f)] @ set_env f w @ global_switches f @
              load_config w @ fork_web f @ fst (update_loop f w),
            snd (update_loop f w)) \<and>
         CompatibleConfig (fst (config_main w)) \<in> set (fst (main f w)) \<and>
         (\<not> noWebService f \<longrightarrow> Go_runWebServer \<in> set (fst (main f w))) \<and>
         (waitInternet_returns w \<longrightarrow>
            RunTimer (word_of_int (every f) * time_Second) \<in> set (fst (main f w))) \<and>
         (\<forall>n. snd (main f w) \<noteq> Exited n) \<and>
         events_of Main_thread (run f w (replicate (length (fst (main f w))) Main_thread)) =
           fst (main f w)"
proof -
  have m: "main f w =
           (fix_timezone w @ [ResolveTCPAddr (listen f)] @ set_env f w @ global_switches f @
              load_config w @ fork_web f @ fst (update_loop f w),
            snd (update_loop f w))"
    using assms by (rule main_service)
  have same: "main f (w\<lparr>config_main := (fst (config_main w), err)\<rparr>) = main f w"
    using assms by (simp add: main_def path_defs)
  have c: "CompatibleConfig (fst (config_main w)) \<in> set (fst (main f w))"
    by (simp add: m load_config_def)
  have g: "\<not> noWebService f \<longrightarrow> Go_runWebServer \<in> set (fst (main f w))"
    by (simp add: m fork_web_def)
  have t: "waitInternet_returns w \<longrightarrow>
            RunTimer (word_of_int (every f) * time_Second) \<in> set (fst (main f w))"
    by (simp add: m update_loop_calls)
  have x: "\<forall>n. snd (main f w) \<noteq> Exited n"
    by (simp add: m update_loop_end)
  from m same c g t x main_only_all_calls [of f w] show ?thesis by blast
qed

theorem load_failure_ignored_witness:
  "\<not> versionFlag (default_flags home_config) \<and>
   resolve_main fresh_host (listen (default_flags home_config)) = Inr listen_addr \<and>
   newPassword (default_flags home_config) = [] \<and>
   main (default_flags home_config)
     (fresh_host\<lparr>config_main := (fst (config_main fresh_host), None)\<rparr>) =
   main (default_flags home_config) fresh_host"
  using load_failure_ignored [of "default_flags home_config" fresh_host listen_addr None]
  by (simp add: default_flags_def fresh_host_def resolve_9876_def)

text \<open>
  C2 as stated fails on a first start with the default flags and no configuration file:
  \<open>GetConfigCached\<close> returns an error, and the process goes on to the migration, forks
  the web goroutine and enters the timer.
\<close>

theorem load_failure_ignored_counterexample:
  "\<not> versionFlag (default_flags home_config) \<and>
   newPassword (default_flags home_config) = [] \<and>
   config_main fresh_host = (\<lparr>Lang = []\<rparr>, Some (Library_error ''no such file or directory'')) \<and>
   main (default_flags home_config) fresh_host =
     ([ResolveTCPAddr '':9876'', Os_Setenv VersionEnv ''DEV'',
       Filepath_Abs ''/root/.ddns_go_config.yaml'',
       Os_Setenv ConfigFilePathENV ''/root/.ddns_go_config.yaml'',
       Os_Setenv IPCacheTimesENV ''5'', GetConfigCached,
       CompatibleConfig \<lparr>Lang = []\<rparr>, InitLogLang [], Go_runWebServer,
       InitBackupDNS [] [], WaitInternet, RunTimer 300000000000],
      Blocked)"
  by (simp add: default_flags_def fresh_host_def resolve_9876_def main_def path_defs
        home_config_def itoa_def time_Second_def)

text \<open>
  C3, as amended. When \<open>-resetPassword\<close> is non-empty, \<open>-v\<close> is not given, the listen
  address resolves and the cached configuration loads without error, \<open>main\<close> writes the
  version and configuration-path environment variables, calls \<open>conf.ResetPassword\<close>
  once and returns: the complete run holds exactly one password reset and ends with
  status 0. Under every schedule there is at most one password reset in the trace, the
  process has not ended or has ended with status 0, the web goroutine is never started,
  and no call starts the web service, probes the network or starts the timer.
\<close>

theorem reset_password_once:
  assumes "\<not> versionFlag f" and "resolve_main w (listen f) = Inr a"
    and "newPassword f \<noteq> []" and "config_main w = (conf, None)"
  shows "main f w =
           (fix_timezone w @ [ResolveTCPAddr (listen f)] @ set_env f w @
              [GetConfigCached, ResetPassword conf (newPassword f)],
            Returned ()) \<and>
         length (filter resets_password (fst (main f w))) = 1 \<and>
         events (run f w (replicate (length (fst (main f w))) Main_thread)) = fst (main f w) \<and>
         exited (run f w (replicate (Suc (length (fst (main f w)))) Main_thread)) =
           Some (Main_thread, 0) \<and>
         length (filter resets_password (events (run f w sched))) \<le> 1 \<and>
         (exited (run f w sched) = None \<or> exited (run f w sched) = Some (Main_thread, 0)) \<and>
         web_todo (run f w sched) = None \<and>
         (\<forall>e\<in>set (events (run f w sched)). \<not> starts_service e \<and> \<not> probes_network e)"
proof -
  have m: "main f w =
           (fix_timezone w @ [ResolveTCPAddr (listen f)] @ set_env f w @
              [GetConfigCached, ResetPassword conf (newPassword f)],
            Returned ())"
    using assms by (simp add: main_reset reset_password_def)
  have one: "length (filter resets_password (fst (main f w))) = 1"
    by (simp add: m fix_timezone_def set_env_def)
  have nf: "Go_runWebServer \<notin> set (fst (main f w))"
    using assms by (simp add: main_forks_iff)
  have all: "events (run f w (replicate (length (fst (main f w))) Main_thread)) = fst (main f w)"
    by (rule run_main_complete [OF nf])
  have r: "snd (main f w) = Returned ()"
    by (simp add: m)
  then have x: "exited (run f w (replicate (Suc (length (fst (main f w)))) Main_thread)) =
           Some (Main_thread, 0)"
    unfolding main_ends by simp
  have "length (filter resets_password (events (run f w sched))) \<le>
        length (filter resets_password (events (run f w sched) @ main_todo (run f w sched)))"
    by simp
  then have most: "length (filter resets_password (events (run f w sched))) \<le> 1"
    using one by (simp only: main_events_prefix [OF nf])
  have y: "exited (run f w sched) = None \<or> exited (run f w sched) = Some (Main_thread, 0)"
    using exit_by_main [OF nf, of sched] r by auto
  have q: "\<forall>e\<in>set (events (run f w sched)). \<not> starts_service e \<and> \<not> probes_network e"
    using no_fork(3) [OF nf, of sched] reset_path_quiet [OF assms(1-3)] by blast
  from m one all x most y q no_fork(1) [OF nf, of sched] show ?thesis by blast
qed

theorem reset_password_once_witness:
  "\<not> versionFlag ((default_flags home_config)\<lparr>newPassword := ''secret''\<rparr>) \<and>
   resolve_main configured_host (listen ((default_flags home_config)\<lparr>newPassword := ''secret''\<rparr>)) =
     Inr listen_addr \<and>
   newPassword ((default_flags home_config)\<lparr>newPassword := ''secret''\<rparr>) \<noteq> [] \<and>
   config_main configured_host = (\<lparr>Lang = ''en''\<rparr>, None) \<and>
   main ((default_flags home_config)\<lparr>newPassword := ''secret''\<rparr>) configured_host =
     ([ResolveTCPAddr '':9876'', Os_Setenv VersionEnv ''DEV'',
       Filepath_Abs ''/root/.ddns_go_config.yaml'',
       Os_Setenv ConfigFilePathENV ''/root/.ddns_go_config.yaml'',
       GetConfigCached, ResetPassword \<lparr>Lang = ''en''\<rparr> ''secret''],
      Returned ())"
  using reset_password_once [of "(default_flags home_config)\<lparr>newPassword := ''secret''\<rparr>"
      configured_host listen_addr "\<lparr>Lang = ''en''\<rparr>" "[]"]
  by (simp add: default_flags_def configured_host_def fresh_host_def resolve_9876_def
        fix_timezone_def set_env_def home_config_def)

text \<open>
  C3 as stated fails for \<open>-v -resetPassword secret\<close> with a configuration in place: the
  process prints the version and returns with no password reset at all. It fails also
  for \<open>-l localhost -resetPassword secret\<close>: the process stops at the address check with
  status 1.
\<close>

theorem reset_password_once_counterexample:
  "newPassword ((default_flags home_config)\<lparr>versionFlag := True, newPassword := ''secret''\<rparr>) \<noteq> [] \<and>
   snd (config_main configured_host) = None \<and>
   main ((default_flags home_config)\<lparr>versionFlag := True, newPassword := ''secret''\<rparr>)
       configured_host =
     ([Fmt_Println ''DEV''], Returned ()) \<and>
   main ((default_flags home_config)\<lparr>listen := ''localhost'', newPassword := ''secret''\<rparr>)
       configured_host =
     ([ResolveTCPAddr ''localhost'', Log_Fatalf (Library_error ''missing port in address'')],
      Exited 1)"
  by (simp add: default_flags_def configured_host_def fresh_host_def resolve_9876_def main_def
        fix_timezone_def)

text \<open>
  C4, as amended. Let the web goroutine be forked and let the web service fail:
  \<open>net.Listen\<close> gives an error, or it succeeds and \<open>http.Serve\<close> returns an error. Then
  \<open>runWebServer\<close> returns that error to its caller (for a bind failure, the error built
  at line 154); it does not end the process. The goroutine then calls \<open>log.Println\<close> on
  the error, sleeps for \<open>time.Minute\<close>, which is 60 seconds, and exits with status 1.
  Meanwhile the main thread is not held up. After the \<open>go\<close> statement its calls are
  \<open>util.InitBackupDNS\<close>, \<open>util.WaitInternet\<close> and, only when that has returned,
  \<open>dns.RunTimer\<close>; under every schedule, as long as the process has not ended, it has
  made one of its calls for each step it was given, whatever the goroutine has done. So
  when the gate opens it enters the timer, also during the sleep; when the gate stays
  shut, the timer is never called. The process ends in one of two ways only: by the
  goroutine, with status 1, after the log and the sleep; or by \<open>main\<close> returning, with
  status 0, which needs \<open>dns.RunTimer\<close> to have returned. From every live state in which
  the goroutine exists, letting it run to its end ends the process with status 1.
\<close>

theorem web_failure_supervised:
  assumes "Go_runWebServer \<in> set (fst (main f w))"
    and "net_Listen w (listen f) = Some e \<and> err = Listen_exception e \<or>
         net_Listen w (listen f) = None \<and> http_Serve w = Returns (Some err)"
  shows "snd (runWebServer f w) = Returns (Some err) \<and>
         web_goroutine f w =
           (fst (runWebServer f w) @ [Log_Println err, Time_Sleep time_Minute], Exited 1) \<and>
         time_Minute = 60000000000 \<and>
         main f w =
           (fix_timezone w @ [ResolveTCPAddr (listen f)] @ set_env f w @ global_switches f @
              load_config w @
              [Go_runWebServer,
               InitBackupDNS (customDNS f) (Lang (compatibleConfig w (fst (config_main w)))),
               WaitInternet] @
              (if waitInternet_returns w
               then [RunTimer (word_of_int (every f) * time_Second)] else []),
            if waitInternet_returns w \<and> runTimer_returns w then Returned () else Blocked) \<and>
         (exited (run f w sched) = None \<longrightarrow>
            events_of Main_thread (run f w sched) =
              take (length (filter (\<lambda>t. t = Main_thread) sched)) (fst (main f w))) \<and>
         (waitInternet_returns w \<and> exited (run f w sched) = None \<and>
          length (fst (main f w)) \<le> length (filter (\<lambda>t. t = Main_thread) sched) \<longrightarrow>
            RunTimer (word_of_int (every f) * time_Second) \<in>
              set (events_of Main_thread (run f w sched))) \<and>
         (\<not> waitInternet_returns w \<longrightarrow> (\<forall>d. RunTimer d \<notin> set (events (run f w sched)))) \<and>
         (\<forall>t n. exited (run f w sched) = Some (t, n) \<longrightarrow>
            t = Web_thread \<and> n = 1 \<and>
              events_of Web_thread (run f w sched) =
                fst (runWebServer f w) @ [Log_Println err, Time_Sleep time_Minute] \<or>
            t = Main_thread \<and> n = 0 \<and> waitInternet_returns w \<and> runTimer_returns w \<and>
              events_of Main_thread (run f w sched) = fst (main f w)) \<and>
         (\<forall>r. exited (run f w sched) = None \<and> web_todo (run f w sched) = Some r \<longrightarrow>
            exited (run f w (sched @ replicate (Suc (length r)) Web_thread)) =
              Some (Web_thread, 1))"
proof -
  let ?s = "run f w sched"
  let ?timer = "RunTimer (word_of_int (every f) * time_Second)"
  have inv: "proc_inv f w ?s" by (rule inv_run)
  have a: "snd (runWebServer f w) = Returns (Some err)"
    using assms(2) by (rule server_failure)
  then have b: "web_goroutine f w =
           (fst (runWebServer f w) @ [Log_Println err, Time_Sleep time_Minute], Exited 1)"
    by (rule goroutine_failure)
  have c: "time_Minute = 60000000000"
    by (simp add: time_Minute_def time_Second_def)
  from assms(1) have path: "\<not> versionFlag f" "\<not> isl (resolve_main w (listen f))"
    "newPassword f = []" "\<not> noWebService f"
    by (simp_all add: main_forks_iff)
  then obtain a' where "resolve_main w (listen f) = Inr a'"
    by (cases "resolve_main w (listen f)") simp_all
  with path have m: "main f w =
           (fix_timezone w @ [ResolveTCPAddr (listen f)] @ set_env f w @ global_switches f @
              load_config w @
              [Go_runWebServer,
               InitBackupDNS (customDNS f) (Lang (compatibleConfig w (fst (config_main w)))),
               WaitInternet] @
              (if waitInternet_returns w then [?timer] else []),
            if waitInternet_returns w \<and> runTimer_returns w then Returned () else Blocked)"
    by (simp add: main_service fork_web_def update_loop_calls update_loop_end)
  have d: "exited ?s = None \<longrightarrow>
            events_of Main_thread ?s =
              take (length (filter (\<lambda>t. t = Main_thread) sched)) (fst (main f w))"
    using main_progress [of f w sched] by blast
  have t1: "waitInternet_returns w \<and> exited ?s = None \<and>
          length (fst (main f w)) \<le> length (filter (\<lambda>t. t = Main_thread) sched) \<longrightarrow>
            ?timer \<in> set (events_of Main_thread ?s)"
  proof (intro impI, elim conjE)
    assume ret: "waitInternet_returns w" and live: "exited ?s = None"
      and all: "length (fst (main f w)) \<le> length (filter (\<lambda>t. t = Main_thread) sched)"
    from live all d have "events_of Main_thread ?s = fst (main f w)" by simp
    moreover from ret have "?timer \<in> set (fst (main f w))" by (simp add: m)
    ultimately show "?timer \<in> set (events_of Main_thread ?s)" by simp
  qed
  have t2: "\<not> waitInternet_returns w \<longrightarrow> (\<forall>d. RunTimer d \<notin> set (events ?s))"
  proof (intro impI allI)
    fix d
    assume shut: "\<not> waitInternet_returns w"
    then have "RunTimer d \<notin> set (fst (main f w))"
      by (auto simp: m path_defs split: if_splits)
    then have "RunTimer d \<notin> set (events_of Main_thread ?s)"
      using main_events_subset [of f w sched] by blast
    moreover have "RunTimer d \<notin> set (events_of Web_thread ?s)"
      using web_events_subset [of f w sched] web_no_timer [of d f w] by blast
    ultimately show "RunTimer d \<notin> set (events ?s)"
      by (simp add: set_events)
  qed
  have x: "\<forall>t n. exited ?s = Some (t, n) \<longrightarrow>
            t = Web_thread \<and> n = 1 \<and>
              events_of Web_thread ?s =
                fst (runWebServer f w) @ [Log_Println err, Time_Sleep time_Minute] \<or>
            t = Main_thread \<and> n = 0 \<and> waitInternet_returns w \<and> runTimer_returns w \<and>
              events_of Main_thread ?s = fst (main f w)"
  proof (intro allI impI)
    fix t n
    assume ex: "exited ?s = Some (t, n)"
    have end_main: "snd (main f w) =
        (if waitInternet_returns w \<and> runTimer_returns w then Returned () else Blocked)"
      by (simp add: m)
    from inv ex have "t = Main_thread \<and> main_todo ?s = [] \<and>
             (snd (main f w) = Returned () \<and> n = 0 \<or> snd (main f w) = Exited n) \<or>
          t = Web_thread \<and> web_todo ?s = Some [] \<and> snd (web_goroutine f w) = Exited n"
      by (simp add: proc_inv_def)
    then show "t = Web_thread \<and> n = 1 \<and>
              events_of Web_thread ?s =
                fst (runWebServer f w) @ [Log_Println err, Time_Sleep time_Minute] \<or>
            t = Main_thread \<and> n = 0 \<and> waitInternet_returns w \<and> runTimer_returns w \<and>
              events_of Main_thread ?s = fst (main f w)"
    proof
      assume mt: "t = Main_thread \<and> main_todo ?s = [] \<and>
             (snd (main f w) = Returned () \<and> n = 0 \<or> snd (main f w) = Exited n)"
      with end_main have "n = 0" and "waitInternet_returns w \<and> runTimer_returns w"
        by (auto split: if_splits)
      moreover from inv mt have "events_of Main_thread ?s = fst (main f w)"
        by (simp add: proc_inv_def)
      ultimately show ?thesis using mt by simp
    next
      assume wt: "t = Web_thread \<and> web_todo ?s = Some [] \<and> snd (web_goroutine f w) = Exited n"
      with b have "n = 1" by simp
      moreover from inv wt b
      have "events_of Web_thread ?s =
          fst (runWebServer f w) @ [Log_Println err, Time_Sleep time_Minute]"
        by (simp add: proc_inv_def)
      ultimately show ?thesis using wt by simp
    qed
  qed
  have g: "\<forall>r. exited ?s = None \<and> web_todo ?s = Some r \<longrightarrow>
            exited (run f w (sched @ replicate (Suc (length r)) Web_thread)) =
              Some (Web_thread, 1)"
    using b by (auto simp: run_append web_ends simp del: replicate_Suc)
  from a b c m d t1 t2 x g show ?thesis by blast
qed

theorem web_failure_supervised_witness:
  "Go_runWebServer \<in> set (fst (main (default_flags home_config) busy_host)) \<and>
   net_Listen busy_host (listen (default_flags home_config)) =
     Some (Library_error ''address already in use'') \<and>
   web_goroutine (default_flags home_config) busy_host =
     (routes @ [Util_Log (Msg_listen '':9876''), Net_Listen '':9876'',
        Log_Println (Listen_exception (Library_error ''address already in use'')),
        Time_Sleep 60000000000],
      Exited 1) \<and>
   main (default_flags home_config) busy_host =
     ([ResolveTCPAddr '':9876'', Os_Setenv VersionEnv ''DEV'',
       Filepath_Abs ''/root/.ddns_go_config.yaml'',
       Os_Setenv ConfigFilePathENV ''/root/.ddns_go_config.yaml'',
       Os_Setenv IPCacheTimesENV ''5'', GetConfigCached,
       CompatibleConfig \<lparr>Lang = ''en''\<rparr>, InitLogLang ''en'', Go_runWebServer,
       InitBackupDNS [] ''en'', WaitInternet, RunTimer 300000000000],
      Blocked)"
  using web_failure_supervised [of "default_flags home_config" busy_host
      "Library_error ''address already in use''"
      "Listen_exception (Library_error ''address already in use'')" "[]"]
  by (simp add: default_flags_def busy_host_def configured_host_def fresh_host_def
        resolve_9876_def main_def path_defs runWebServer_def home_config_def itoa_def
        time_Second_def)

text \<open>
  C4 as stated fails in two ways on a host whose port is taken. With the network down,
  the main thread never leaves \<open>util.WaitInternet\<close>: the goroutine logs, sleeps and exits
  with status 1, and no update cycle has run, before the sleep or during it. And were
  \<open>dns.RunTimer\<close> to return during the sleep, \<open>main\<close> would return and the process would
  end with status 0, not 1.
\<close>

theorem web_failure_supervised_counterexample:
  "net_Listen offline_busy_host (listen (default_flags home_config)) =
     Some (Library_error ''address already in use'') \<and>
   main (default_flags home_config) offline_busy_host =
     ([ResolveTCPAddr '':9876'', Os_Setenv VersionEnv ''DEV'',
       Filepath_Abs ''/root/.ddns_go_config.yaml'',
       Os_Setenv ConfigFilePathENV ''/root/.ddns_go_config.yaml'',
       Os_Setenv IPCacheTimesENV ''5'', GetConfigCached,
       CompatibleConfig \<lparr>Lang = ''en''\<rparr>, InitLogLang ''en'', Go_runWebServer,
       InitBackupDNS [] ''en'', WaitInternet],
      Blocked) \<and>
   exited (run (default_flags home_config) offline_busy_host
      (replicate 11 Main_thread @ replicate 15 Web_thread)) = Some (Web_thread, 1) \<and>
   events_of Web_thread (run (default_flags home_config) timer_returns_host
      (replicate 9 Main_thread @ replicate 14 Web_thread @ replicate 4 Main_thread)) =
     routes @ [Util_Log (Msg_listen '':9876''), Net_Listen '':9876'',
        Log_Println (Listen_exception (Library_error ''address already in use'')),
        Time_Sleep 60000000000] \<and>
   exited (run (default_flags home_config) timer_returns_host
      (replicate 9 Main_thread @ replicate 14 Web_thread @ replicate 4 Main_thread)) =
     Some (Main_thread, 0)"
  by code_simp

text \<open>
  C5. With \<open>-noweb\<close>, whatever the other flags and the host, under every schedule the
  web goroutine is never started and no call in the trace binds the listening socket or
  registers an HTTP route.
\<close>

theorem noweb_never_binds:
  assumes "noWebService f"
  shows "web_todo (run f w sched) = None \<and>
         (\<forall>e\<in>set (events (run f w sched)). \<not> opens_socket e \<and> \<not> registers_route e)"
proof -
  have "Go_runWebServer \<notin> set (fst (main f w))"
    using assms by (simp add: main_forks_iff)
  note nf = no_fork [OF this, of sched]
  from nf(3) have "\<forall>e\<in>set (events (run f w sched)). \<not> opens_socket e \<and> \<not> registers_route e"
    using main_no_socket by blast
  with nf(1) show ?thesis by simp
qed

theorem noweb_never_binds_witness:
  "noWebService ((default_flags home_config)\<lparr>noWebService := True\<rparr>) \<and>
   web_todo (run ((default_flags home_config)\<lparr>noWebService := True\<rparr>) configured_host
      (replicate 12 Main_thread @ [Web_thread, Main_thread])) = None \<and>
   list_all (\<lambda>e. \<not> opens_socket e \<and> \<not> registers_route e)
     (events (run ((default_flags home_config)\<lparr>noWebService := True\<rparr>) configured_host
      (replicate 12 Main_thread @ [Web_thread, Main_thread])))"
  using noweb_never_binds [of "(default_flags home_config)\<lparr>noWebService := True\<rparr>"
      configured_host "replicate 12 Main_thread @ [Web_thread, Main_thread]"]
  by (simp add: default_flags_def list_all_iff)

text \<open>
  C6. With \<open>-v\<close> the process prints the version string on standard output and exits with
  status 0, and that is all it does: \<open>main\<close> makes the one call \<open>fmt.Println(version)\<close>
  and returns, whatever the other flags and whatever the host (a configuration file or
  none). Under every schedule the trace is empty or holds that one call, and the process
  has not ended or has ended with status 0; after two steps of the main thread it has
  printed and ended.
\<close>

theorem version_query:
  assumes "versionFlag f"
  shows "main f w = ([Fmt_Println (version w)], Returned ()) \<and>
         (events (run f w sched) = [] \<or> events (run f w sched) = [Fmt_Println (version w)]) \<and>
         (exited (run f w sched) = None \<or> exited (run f w sched) = Some (Main_thread, 0)) \<and>
         run f w [Main_thread, Main_thread] =
           \<lparr>trace = [(Main_thread, Fmt_Println (version w))], main_todo = [],
            web_todo = None, exited = Some (Main_thread, 0)\<rparr>"
proof -
  have m: "main f w = ([Fmt_Println (version w)], Returned ())"
    using assms by (rule main_version)
  then have "Go_runWebServer \<notin> set (fst (main f w))" by simp
  note nf = no_fork [OF this, of sched]
  let ?s = "run f w sched"
  have inv: "proc_inv f w ?s" by (rule inv_run)
  have "events_of Main_thread ?s @ main_todo ?s = [Fmt_Println (version w)]"
    using inv m by (simp add: proc_inv_def)
  then have "events_of Main_thread ?s = [] \<or> events_of Main_thread ?s = [Fmt_Println (version w)]"
    by (cases "events_of Main_thread ?s") simp_all
  then have e: "events ?s = [] \<or> events ?s = [Fmt_Println (version w)]"
    by (simp add: events_main_only [OF nf(2)])
  have x: "exited ?s = None \<or> exited ?s = Some (Main_thread, 0)"
    using inv m nf(1) by (auto simp: proc_inv_def split: option.splits)
  have r: "run f w [Main_thread, Main_thread] =
           \<lparr>trace = [(Main_thread, Fmt_Println (version w))], main_todo = [],
            web_todo = None, exited = Some (Main_thread, 0)\<rparr>"
    using m by (simp add: run_def init_def step_def finish_def)
  from m e x r show ?thesis by blast
qed

theorem version_query_witness:
  "versionFlag ((default_flags home_config)\<lparr>versionFlag := True\<rparr>) \<and>
   snd (config_main fresh_host) = Some (Library_error ''no such file or directory'') \<and>
   main ((default_flags home_config)\<lparr>versionFlag := True\<rparr>) fresh_host =
     ([Fmt_Println ''DEV''], Returned ())"
  using version_query [of "(default_flags home_config)\<lparr>versionFlag := True\<rparr>" fresh_host "[]"]
  by (simp add: default_flags_def fresh_host_def)




text \<open>
  C8, as amended. Under every schedule, in every state in which the web goroutine
  exists, the main thread has already written the version and cache-times environment
  variables, has written the configuration path if \<open>-c\<close> is non-empty, and has already
  called \<open>CompatibleConfig\<close>; it has no environment write and no change of the
  configuration left to make. The goroutine makes no call before it exists. With an
  empty \<open>-c\<close> the configuration path is never written at all. The call of
  \<open>dns.RunTimer\<close> comes, in \<open>main\<close> and so in every trace, only after the call of
  \<open>util.WaitInternet\<close>, and only when that call has returned.
\<close>

theorem fork_after_signals:
  "(web_todo (run f w sched) \<noteq> None \<longrightarrow>
      Os_Setenv VersionEnv (version w) \<in> set (events_of Main_thread (run f w sched)) \<and>
      (configFilePath f \<noteq> [] \<longrightarrow>
         Os_Setenv ConfigFilePathENV (filepath_Abs w (configFilePath f)) \<in>
         set (events_of Main_thread (run f w sched))) \<and>
      Os_Setenv IPCacheTimesENV (itoa (ipCacheTimes f)) \<in>
        set (events_of Main_thread (run f w sched)) \<and>
      CompatibleConfig (fst (config_main w)) \<in> set (events_of Main_thread (run f w sched)) \<and>
      (\<forall>e\<in>set (main_todo (run f w sched)). \<not> writes_env e \<and> \<not> mutates_config e)) \<and>
   (events_of Web_thread (run f w sched) \<noteq> [] \<longrightarrow> web_todo (run f w sched) \<noteq> None) \<and>
   (configFilePath f = [] \<longrightarrow> (\<forall>v. Os_Setenv ConfigFilePathENV v \<notin> set (fst (main f w)))) \<and>
   (\<forall>pre d post. fst (main f w) = pre @ RunTimer d # post \<longrightarrow>
      waitInternet_returns w \<and> WaitInternet \<in> set pre) \<and>
   (\<forall>d. RunTimer d \<in> set (events (run f w sched)) \<longrightarrow>
      waitInternet_returns w \<and> WaitInternet \<in> set (events_of Main_thread (run f w sched)))"
proof -
  let ?s = "run f w sched"
  let ?A = "fix_timezone w @ [ResolveTCPAddr (listen f)] @ set_env f w @ global_switches f @
      load_config w"
  have inv: "proc_inv f w ?s" by (rule inv_run)
  then have whole: "events_of Main_thread ?s @ main_todo ?s = fst (main f w)"
    by (simp add: proc_inv_def)
  have p1: "web_todo ?s \<noteq> None \<longrightarrow>
      Os_Setenv VersionEnv (version w) \<in> set (events_of Main_thread ?s) \<and>
      (configFilePath f \<noteq> [] \<longrightarrow>
         Os_Setenv ConfigFilePathENV (filepath_Abs w (configFilePath f)) \<in>
         set (events_of Main_thread ?s)) \<and>
      Os_Setenv IPCacheTimesENV (itoa (ipCacheTimes f)) \<in> set (events_of Main_thread ?s) \<and>
      CompatibleConfig (fst (config_main w)) \<in> set (events_of Main_thread ?s) \<and>
      (\<forall>e\<in>set (main_todo ?s). \<not> writes_env e \<and> \<not> mutates_config e)"
  proof
    assume "web_todo ?s \<noteq> None"
    then have forked: "Go_runWebServer \<in> set (events_of Main_thread ?s)"
      using inv by (auto simp: proc_inv_def split: option.splits)
    then have "Go_runWebServer \<in> set (fst (main f w))"
      using main_events_subset [of f w sched] by blast
    then have path: "\<not> versionFlag f" "\<not> isl (resolve_main w (listen f))" "newPassword f = []"
      "\<not> noWebService f"
      by (simp_all add: main_forks_iff)
    then obtain a where "resolve_main w (listen f) = Inr a"
      by (cases "resolve_main w (listen f)") simp_all
    with path have "fst (main f w) = ?A @ Go_runWebServer # fst (update_loop f w)"
      by (simp add: main_service fork_web_def)
    with whole have "events_of Main_thread ?s @ main_todo ?s =
        ?A @ Go_runWebServer # fst (update_loop f w)"
      by simp
    from fork_split [OF this forked before_fork_calls(5)]
    obtain zs where made: "events_of Main_thread ?s = ?A @ Go_runWebServer # zs"
      and rest: "zs @ main_todo ?s = fst (update_loop f w)"
      by blast
    have "set (main_todo ?s) \<subseteq> set (fst (update_loop f w))"
      by (metis rest set_append Un_upper2)
    then have quiet: "\<forall>e\<in>set (main_todo ?s). \<not> writes_env e \<and> \<not> mutates_config e"
      using after_fork_calls by blast
    have sub: "set ?A \<subseteq> set (events_of Main_thread ?s)"
      unfolding made by auto
    show "Os_Setenv VersionEnv (version w) \<in> set (events_of Main_thread ?s) \<and>
      (configFilePath f \<noteq> [] \<longrightarrow>
         Os_Setenv ConfigFilePathENV (filepath_Abs w (configFilePath f)) \<in>
         set (events_of Main_thread ?s)) \<and>
      Os_Setenv IPCacheTimesENV (itoa (ipCacheTimes f)) \<in> set (events_of Main_thread ?s) \<and>
      CompatibleConfig (fst (config_main w)) \<in> set (events_of Main_thread ?s) \<and>
      (\<forall>e\<in>set (main_todo ?s). \<not> writes_env e \<and> \<not> mutates_config e)"
      using sub quiet before_fork_calls(1,3,4) [where w = w and f = f]
        before_fork_calls(2) [where w = w and f = f]
      by blast
  qed
  have p2: "events_of Web_thread ?s \<noteq> [] \<longrightarrow> web_todo ?s \<noteq> None"
    using inv by (auto simp: proc_inv_def split: option.splits)
  have p3: "configFilePath f = [] \<longrightarrow> (\<forall>v. Os_Setenv ConfigFilePathENV v \<notin> set (fst (main f w)))"
    using no_path_written by blast
  have p4: "\<forall>pre d post. fst (main f w) = pre @ RunTimer d # post \<longrightarrow>
      waitInternet_returns w \<and> WaitInternet \<in> set pre"
  proof (intro allI impI)
    fix pre d post
    assume eq: "fst (main f w) = pre @ RunTimer d # post"
    then have "RunTimer d \<in> set (fst (main f w))" by simp
    from timer_last [OF this] obtain P y where ret: "waitInternet_returns w"
      and P: "fst (main f w) = P @ [y]" "\<forall>d. RunTimer d \<notin> set P" "WaitInternet \<in> set P"
      by blast
    from eq P(1) have "pre @ RunTimer d # post = P @ [y]" by simp
    from timer_split [OF this P(2)] have "pre = P" by simp
    with ret P(3) show "waitInternet_returns w \<and> WaitInternet \<in> set pre" by simp
  qed
  have p5: "\<forall>d. RunTimer d \<in> set (events ?s) \<longrightarrow>
      waitInternet_returns w \<and> WaitInternet \<in> set (events_of Main_thread ?s)"
  proof (intro allI impI)
    fix d
    assume "RunTimer d \<in> set (events ?s)"
    then have "RunTimer d \<in> set (events_of Main_thread ?s)"
      using web_events_subset [of f w sched] web_no_timer [of d f w]
      by (auto simp: set_events)
    then obtain x1 x2 where split: "events_of Main_thread ?s = x1 @ RunTimer d # x2"
      by (meson split_list)
    with whole have "fst (main f w) = x1 @ RunTimer d # (x2 @ main_todo ?s)" by simp
    with p4 have "waitInternet_returns w \<and> WaitInternet \<in> set x1" by blast
    with split show "waitInternet_returns w \<and> WaitInternet \<in> set (events_of Main_thread ?s)"
      by simp
  qed
  from p1 p2 p3 p4 p5 show ?thesis by blast
qed

theorem fork_after_signals_witness:
  "web_todo (run (default_flags home_config) configured_host (replicate 9 Main_thread)) \<noteq> None \<and>
   configFilePath (default_flags home_config) \<noteq> [] \<and>
   events_of Web_thread (run (default_flags home_config) configured_host
     (replicate 9 Main_thread @ [Web_thread])) \<noteq> [] \<and>
   fst (main (default_flags home_config) configured_host) =
     [ResolveTCPAddr '':9876'', Os_Setenv VersionEnv ''DEV'',
      Filepath_Abs ''/root/.ddns_go_config.yaml'',
      Os_Setenv ConfigFilePathENV ''/root/.ddns_go_config.yaml'',
      Os_Setenv IPCacheTimesENV ''5'', GetConfigCached,
      CompatibleConfig \<lparr>Lang = ''en''\<rparr>, InitLogLang ''en'', Go_runWebServer,
      InitBackupDNS [] ''en'', WaitInternet] @
     RunTimer 300000000000 # [] \<and>
   Os_Setenv ConfigFilePathENV ''/root/.ddns_go_config.yaml'' \<in>
     set (events_of Main_thread
            (run (default_flags home_config) configured_host (replicate 9 Main_thread)))"
  using fork_after_signals [of "default_flags home_config" configured_host
      "replicate 9 Main_thread"]
  by (simp add: default_flags_def configured_host_def fresh_host_def resolve_9876_def
        main_def path_defs home_config_def itoa_def time_Second_def
        run_def init_def step_def events_of_def web_goroutine_def runWebServer_def
        routes_def eval_nat_numeral)

text \<open>
  C8 as stated fails for \<open>-c ""\<close> with the web service enabled: the goroutine is forked,
  and the configuration-path variable has not been written, before the fork or after.
\<close>

theorem fork_after_signals_counterexample:
  "\<not> noWebService (default_flags []) \<and>
   main (default_flags []) configured_host =
     ([ResolveTCPAddr '':9876'', Os_Setenv VersionEnv ''DEV'',
       Os_Setenv IPCacheTimesENV ''5'', GetConfigCached,
       CompatibleConfig \<lparr>Lang = ''en''\<rparr>, InitLogLang ''en'', Go_runWebServer,
       InitBackupDNS [] ''en'', WaitInternet, RunTimer 300000000000],
      Blocked)"
  by (simp add: default_flags_def configured_host_def fresh_host_def resolve_9876_def
        main_def path_defs itoa_def time_Second_def)

text \<open>
  C9. After a successful bind \<open>runWebServer\<close> makes the calls of \<open>autoOpenExplorer\<close> and
  then calls \<open>http.Serve\<close>, whose outcome is its own: whatever the configuration
  lookup, the Docker test and the address resolution inside \<open>autoOpenExplorer\<close> give,
  the last call of \<open>runWebServer\<close> is \<open>http.Serve\<close> and its result is that of
  \<open>http.Serve\<close>. With a configuration in place \<open>autoOpenExplorer\<close> makes no call but
  the lookup. With none, it logs the Docker hint, or resolves the listen address and
  forks \<open>util.OpenExplorer\<close> on the address's URL, or (the address not resolving) does
  nothing more.
\<close>

theorem auto_open_harmless:
  assumes "net_Listen w (listen f) = None"
  shows "runWebServer f w =
           (routes @ [Util_Log (Msg_listen (listen f)), Net_Listen (listen f)] @
              autoOpenExplorer f w @ [Http_Serve],
            http_Serve w) \<and>
         snd (runWebServer f (w\<lparr>config_web := c, isRunInDocker := d, resolve_web := r\<rparr>)) =
           http_Serve w \<and>
         last (fst (runWebServer f (w\<lparr>config_web := c, isRunInDocker := d, resolve_web := r\<rparr>))) =
           Http_Serve \<and>
         (snd (config_web w) = None \<longrightarrow> autoOpenExplorer f w = [GetConfigCached]) \<and>
         (snd (config_web w) \<noteq> None \<longrightarrow>
            autoOpenExplorer f w =
              GetConfigCached # IsRunInDocker #
              (if isRunInDocker w then [Util_Log Msg_docker_hint]
               else ResolveTCPAddr (listen f) #
                    (case resolve_web w (listen f) of
                       Inl e \<Rightarrow> []
                     | Inr addr \<Rightarrow> [Go_OpenExplorer (explorer_url addr)])))"
  using assms
  by (auto simp: runWebServer_def autoOpenExplorer_def split: option.splits sum.splits)

theorem auto_open_harmless_witness:
  "net_Listen fresh_host (listen (default_flags home_config)) = None \<and>
   snd (config_web fresh_host) \<noteq> None \<and>
   autoOpenExplorer (default_flags home_config) fresh_host =
     [GetConfigCached, IsRunInDocker, ResolveTCPAddr '':9876'',
      Go_OpenExplorer ''http://127.0.0.1:9876''] \<and>
   snd (runWebServer (default_flags home_config) fresh_host) = Never_returns"
  using auto_open_harmless [where w = fresh_host and f = "default_flags home_config"
      and c = "config_web fresh_host" and d = "isRunInDocker fresh_host"
      and r = "resolve_web fresh_host"]
  by (simp add: default_flags_def fresh_host_def resolve_9876_def listen_addr_def
        explorer_url_def itoa_def)

text \<open>
  C10. With a non-empty \<open>-resetPassword\<close>, whatever the other flags (also with
  \<open>-skipVerify\<close>, \<open>-dns\<close> and \<open>-cacheTimes\<close>) and whatever the host, under every
  schedule no call in the trace applies one of the three global settings
  (\<open>util.SetInsecureSkipVerify\<close>, \<open>util.SetDNS\<close>, the cache-times environment variable),
  the web goroutine is never started, and \<open>main\<close> ends the process: it returns, or it
  stops at the address check with status 1.
\<close>

theorem reset_mode_skips_global_settings:
  assumes "newPassword f \<noteq> []"
  shows "(\<forall>e\<in>set (events (run f w sched)). \<not> applies_global_setting e) \<and>
         web_todo (run f w sched) = None \<and>
         (snd (main f w) = Returned () \<or> snd (main f w) = Exited 1)"
proof -
  have nf: "Go_runWebServer \<notin> set (fst (main f w))"
    using assms by (simp add: main_forks_iff)
  have "\<forall>e\<in>set (fst (main f w)). \<not> applies_global_setting e"
    by (rule main_cases [where f = f and w = w])
       (use assms in \<open>auto simp: main_version main_fatal main_reset path_defs
             split: prod.splits option.splits if_splits\<close>)
  then have a: "\<forall>e\<in>set (events (run f w sched)). \<not> applies_global_setting e"
    using no_fork(3) [OF nf, of sched] by blast
  have b: "snd (main f w) = Returned () \<or> snd (main f w) = Exited 1"
    by (rule main_cases [where f = f and w = w])
       (use assms in \<open>simp_all add: main_version main_fatal main_reset\<close>)
  from a b no_fork(1) [OF nf, of sched] show ?thesis by simp
qed

theorem reset_mode_skips_global_settings_witness:
  "newPassword ((default_flags home_config)
      \<lparr>newPassword := ''secret'', skipVerify := True, customDNS := ''8.8.8.8'',
       ipCacheTimes := 7\<rparr>) \<noteq> [] \<and>
   list_all (\<lambda>e. \<not> applies_global_setting e)
     (events (run ((default_flags home_config)
        \<lparr>newPassword := ''secret'', skipVerify := True, customDNS := ''8.8.8.8'',
         ipCacheTimes := 7\<rparr>) configured_host (replicate 7 Main_thread))) \<and>
   snd (main ((default_flags home_config)
      \<lparr>newPassword := ''secret'', skipVerify := True, customDNS := ''8.8.8.8'',
       ipCacheTimes := 7\<rparr>) configured_host) = Returned ()"
  using reset_mode_skips_global_settings [of "(default_flags home_config)
      \<lparr>newPassword := ''secret'', skipVerify := True, customDNS := ''8.8.8.8'',
       ipCacheTimes := 7\<rparr>" configured_host "replicate 7 Main_thread"]
  by (simp add: default_flags_def list_all_iff main_def configured_host_def fresh_host_def
        resolve_9876_def)

end
